theory Spec2Isabelle
  imports Main "HOL-Library.Word" "HOL-Library.Multiset" "HOL-Library.Char_ord"
    "HOL-Library.List_Lexorder"
begin

section \<open>The status collector of imgd (status.go)\<close>

text \<open>
  The collector owns a struct of counters and gauges. One goroutine, started by
  \<open>MakeStatsCollector\<close>, receives either a tick of a five-second ticker or a message
  from the channel \<open>inputData\<close> and handles one of them per iteration of its loop.
  The model is the sequential behaviour of that goroutine: a state record, one function
  per handler, and a run over a finite list of the inputs the loop received.

  Go's \<open>uint\<close> is as wide as the platform's word; it is modelled at 64 bits (amd64,
  arm64). \<open>uint64\<close> and \<open>int64\<close> are 64-bit words, the latter read with \<open>sint\<close>.
  Arithmetic on all of them wraps around, as Go's does.
\<close>

type_synonym go_uint = "64 word"
type_synonym uint64 = "64 word"
type_synonym int64 = "64 word"

subsection \<open>Message types (the iota block)\<close>

definition StatusTypeCacheHit :: go_uint where "StatusTypeCacheHit = 0"
definition StatusTypeCacheMiss :: go_uint where "StatusTypeCacheMiss = 1"
definition StatusTypeRequested :: go_uint where "StatusTypeRequested = 2"
definition StatusTypeAPIRequested :: go_uint where "StatusTypeAPIRequested = 3"
definition StatusTypeErrored :: go_uint where "StatusTypeErrored = 4"

record statusCollectorMessage =
  MessageType :: go_uint
  StatusType :: string

subsection \<open>The collector's state\<close>

text \<open>
  The anonymous struct \<open>info\<close>. A Go map is a finite partial function; the three maps
  are allocated (empty) by \<open>MakeStatsCollector\<close>, never nil.
\<close>

record info_t =
  ImgdMem :: uint64
  Uptime :: int64
  Errored :: "string \<rightharpoonup> go_uint"
  Requested :: "string \<rightharpoonup> go_uint"
  APIRequested :: "string \<rightharpoonup> go_uint"
  CacheHits :: go_uint
  CacheMisses :: go_uint
  CacheSize :: go_uint
  CacheMem :: uint64

record StatusCollector =
  info :: info_t
  StartedAt :: int64

text \<open>
  \<open>MakeStatsCollector\<close>: every field of \<open>info\<close> has Go's zero value, the three maps
  are empty, and \<open>StartedAt\<close> is the clock's reading \<open>time.Now().Unix()\<close>, a parameter
  here. The channel of capacity 5 and the goroutine are the run function below.
\<close>

definition MakeStatsCollector :: "int64 \<Rightarrow> StatusCollector" where
  "MakeStatsCollector now =
     \<lparr>info = \<lparr>ImgdMem = 0, Uptime = 0, Errored = Map.empty, Requested = Map.empty,
              APIRequested = Map.empty, CacheHits = 0, CacheMisses = 0, CacheSize = 0,
              CacheMem = 0\<rparr>,
      StartedAt = now\<rparr>"

subsection \<open>The metrics registry\<close>

text \<open>
  Modelled from the spec: the four global counter vectors \<open>cacheCounter\<close>,
  \<open>errorCounter\<close>, \<open>requestCounter\<close> and \<open>apiCounter\<close> are declared outside
  status.go. The spec gives their one operation, \<open>withLabels(family, label).increment()\<close>,
  one family per event type. A call \<open>c.WithLabelValues(l).Inc()\<close> is recorded as the
  pair \<open>(c, l)\<close>; a handler returns the list of the calls it made, in order.
\<close>

datatype CounterVec = cacheCounter | errorCounter | requestCounter | apiCounter

type_synonym increment = "CounterVec \<times> string"

subsection \<open>handleMessage\<close>

text \<open>
  The check-then-increment on a map:
  \<^verbatim>\<open>if _, exists := m[k]; exists { m[k]++ } else { m[k] = 1 }\<close>
\<close>

definition bucket_inc :: "(string \<rightharpoonup> go_uint) \<Rightarrow> string \<Rightarrow> (string \<rightharpoonup> go_uint)" where
  "bucket_inc m k = (case m k of Some v \<Rightarrow> m(k \<mapsto> v + 1) | None \<Rightarrow> m(k \<mapsto> 1))"

text \<open>The switch, its cases in the order of the source; no default case.\<close>

definition handleMessage ::
  "StatusCollector \<Rightarrow> statusCollectorMessage \<Rightarrow> StatusCollector \<times> increment list" where
  "handleMessage s msg =
     (if MessageType msg = StatusTypeCacheHit then
        (s\<lparr>info := (info s)\<lparr>CacheHits := CacheHits (info s) + 1\<rparr>\<rparr>,
         [(cacheCounter, ''hit'')])
      else if MessageType msg = StatusTypeCacheMiss then
        (s\<lparr>info := (info s)\<lparr>CacheMisses := CacheMisses (info s) + 1\<rparr>\<rparr>,
         [(cacheCounter, ''miss'')])
      else if MessageType msg = StatusTypeErrored then
        (let err = StatusType msg in
         (s\<lparr>info := (info s)\<lparr>Errored := bucket_inc (Errored (info s)) err\<rparr>\<rparr>,
          [(errorCounter, err)]))
      else if MessageType msg = StatusTypeRequested then
        (let req = StatusType msg in
         (s\<lparr>info := (info s)\<lparr>Requested := bucket_inc (Requested (info s)) req\<rparr>\<rparr>,
          [(requestCounter, req)]))
      else if MessageType msg = StatusTypeAPIRequested then
        (let req = StatusType msg in
         (s\<lparr>info := (info s)\<lparr>APIRequested := bucket_inc (APIRequested (info s)) req\<rparr>\<rparr>,
          [(apiCounter, req)]))
      else (s, []))"

subsection \<open>Collect\<close>

text \<open>
  The method \<open>Collect\<close>, named \<open>Collect_gauges\<close> here (\<open>Collect\<close> is HOL's set
  comprehension). What it reads from outside the collector: \<open>memstats.Alloc\<close> after
  \<open>runtime.ReadMemStats\<close>, \<open>time.Now().Unix()\<close>, and the global cache's \<open>size()\<close>
  and \<open>memory()\<close>. The results are assigned without conversion, so they have the types
  of the fields they are assigned to.
\<close>

record readings =
  Alloc :: uint64
  Now_Unix :: int64
  cache_size :: go_uint
  cache_memory :: uint64

definition Collect_gauges :: "StatusCollector \<Rightarrow> readings \<Rightarrow> StatusCollector" where
  "Collect_gauges s r =
     s\<lparr>info := (info s)\<lparr>ImgdMem := Alloc r,
                         Uptime := Now_Unix r - StartedAt s,
                         CacheSize := cache_size r,
                         CacheMem := cache_memory r\<rparr>\<rparr>"

subsection \<open>The ingestion methods\<close>

text \<open>
  Each method sends one message on \<open>inputData\<close>; the function is the message sent.
  \<open>HitCache\<close> and \<open>MissCache\<close> leave \<open>StatusType\<close> at its zero value, the empty
  string.
\<close>

definition StatusCollector_Errored :: "string \<Rightarrow> statusCollectorMessage" where
  "StatusCollector_Errored errorType =
     \<lparr>MessageType = StatusTypeErrored, StatusType = errorType\<rparr>"

definition StatusCollector_Requested :: "string \<Rightarrow> statusCollectorMessage" where
  "StatusCollector_Requested reqType =
     \<lparr>MessageType = StatusTypeRequested, StatusType = reqType\<rparr>"

definition StatusCollector_APIRequested :: "string \<Rightarrow> statusCollectorMessage" where
  "StatusCollector_APIRequested reqType =
     \<lparr>MessageType = StatusTypeAPIRequested, StatusType = reqType\<rparr>"

definition HitCache :: statusCollectorMessage where
  "HitCache = \<lparr>MessageType = StatusTypeCacheHit, StatusType = []\<rparr>"

definition MissCache :: statusCollectorMessage where
  "MissCache = \<lparr>MessageType = StatusTypeCacheMiss, StatusType = []\<rparr>"

subsection \<open>The goroutine's loop\<close>

text \<open>
  One iteration of \<open>for { select { ... } }\<close> takes a tick and calls \<open>Collect\<close>, or
  takes a message and calls \<open>handleMessage\<close>. The loop never returns; \<open>run\<close> is
  its effect on a finite sequence of inputs, with the increments pushed on the way.
\<close>

datatype input = Tick readings | Message statusCollectorMessage

fun loop_step :: "StatusCollector \<Rightarrow> input \<Rightarrow> StatusCollector \<times> increment list" where
  "loop_step s (Tick r) = (Collect_gauges s r, [])"
| "loop_step s (Message msg) = handleMessage s msg"

fun run :: "StatusCollector \<Rightarrow> input list \<Rightarrow> StatusCollector \<times> increment list" where
  "run s [] = (s, [])"
| "run s (x # xs) =
     (case loop_step s x of (s', pushed) \<Rightarrow>
        (case run s' xs of (s'', pushed') \<Rightarrow> (s'', pushed @ pushed')))"

subsection \<open>ToJSON\<close>

text \<open>
  \<open>encoding/json\<close> is Go's library, not imgd's code. What \<open>json.Marshal\<close> returns for
  a value of the struct \<open>info\<close> is represented by the document it encodes: an object
  whose members are the exported fields under their Go names (the struct has no tags),
  in the order of declaration; an unsigned or signed integer is a number; a map with
  string keys is an object whose members are sorted by key. The bytes of the encoding
  (digits, quoting and escaping of the keys) are below this model.
\<close>

datatype json = JNumber int | JObject "(string \<times> json) list"

datatype error = Error string

text \<open>Reading \<open>m[k]\<close> from a Go map: the zero value when the key is absent.\<close>

definition map_index :: "(string \<rightharpoonup> go_uint) \<Rightarrow> string \<Rightarrow> go_uint" where
  "map_index m k = (case m k of None \<Rightarrow> 0 | Some v \<Rightarrow> v)"

definition marshal_map :: "(string \<rightharpoonup> go_uint) \<Rightarrow> json" where
  "marshal_map m =
     JObject (map (\<lambda>k. (k, JNumber (uint (map_index m k)))) (sorted_list_of_set (dom m)))"

definition json_Marshal :: "info_t \<Rightarrow> json \<times> error option" where
  "json_Marshal i =
     (JObject
        [(''ImgdMem'', JNumber (uint (ImgdMem i))),
         (''Uptime'', JNumber (sint (Uptime i))),
         (''Errored'', marshal_map (Errored i)),
         (''Requested'', marshal_map (Requested i)),
         (''APIRequested'', marshal_map (APIRequested i)),
         (''CacheHits'', JNumber (uint (CacheHits i))),
         (''CacheMisses'', JNumber (uint (CacheMisses i))),
         (''CacheSize'', JNumber (uint (CacheSize i))),
         (''CacheMem'', JNumber (uint (CacheMem i)))],
      None)"

text \<open>
  \<^verbatim>\<open>results, _ := json.Marshal(s.info); return results\<close>
  with the library's serializer as a parameter: \<open>ToJSON\<close> returns the first component
  of what it yields and drops the second. The source always calls \<open>json.Marshal\<close>, so
  the properties below are about \<open>ToJSON json_Marshal\<close>.
\<close>

definition ToJSON :: "(info_t \<Rightarrow> 'r \<times> error option) \<Rightarrow> StatusCollector \<Rightarrow> 'r" where
  "ToJSON marshal s = (case marshal (info s) of (results, _) \<Rightarrow> results)"

text \<open>Looking a member of an object up by name, and the names of an object.\<close>

fun json_member :: "json \<Rightarrow> string \<Rightarrow> json option" where
  "json_member (JObject fs) name = map_of fs name"
| "json_member (JNumber _) name = None"

fun member_names :: "json \<Rightarrow> string list" where
  "member_names (JObject fs) = map fst fs"
| "member_names (JNumber _) = []"

text \<open>The types of the interface contract, as shapes of a document.\<close>

datatype json_type = T_uint | T_uint64 | T_int64 | T_counts

fun has_type :: "json \<Rightarrow> json_type \<Rightarrow> bool" where
  "has_type (JNumber n) T_uint = (0 \<le> n \<and> n < 2 ^ 64)"
| "has_type (JNumber n) T_uint64 = (0 \<le> n \<and> n < 2 ^ 64)"
| "has_type (JNumber n) T_int64 = (- (2 ^ 63) \<le> n \<and> n < 2 ^ 63)"
| "has_type (JObject fs) T_counts = list_all (\<lambda>(k, v). has_type v T_uint) fs"
| "has_type _ _ = False"

subsection \<open>Reachable states\<close>

inductive reachable :: "StatusCollector \<Rightarrow> bool" where
  made: "reachable (MakeStatsCollector now)"
| handled: "reachable s \<Longrightarrow> reachable (fst (handleMessage s msg))"
| collected: "reachable s \<Longrightarrow> reachable (Collect_gauges s r)"

subsection \<open>Counting the messages of a run\<close>

fun messages :: "input list \<Rightarrow> statusCollectorMessage list" where
  "messages [] = []"
| "messages (Tick r # xs) = messages xs"
| "messages (Message msg # xs) = msg # messages xs"

definition count_type :: "go_uint \<Rightarrow> statusCollectorMessage list \<Rightarrow> nat" where
  "count_type t ms = length (filter (\<lambda>m. MessageType m = t) ms)"

definition count_kind :: "go_uint \<Rightarrow> string \<Rightarrow> statusCollectorMessage list \<Rightarrow> nat" where
  "count_kind t k ms = length (filter (\<lambda>m. MessageType m = t \<and> StatusType m = k) ms)"



subsection \<open>The specification's view of an event\<close>

text \<open>
  The spec's Event is a variant of five cases; on an event the aggregator is to
  get-or-default-then-increment the relevant bucket and to push one increment, whose
  family is given by the event type and whose label is the category or kind. These
  definitions follow the spec's words; the theorems compare them with \<open>handleMessage\<close>.
\<close>

datatype Event =
  Ev_CacheHit | Ev_CacheMiss | Ev_Requested string | Ev_APIRequested string
  | Ev_Errored string

definition event_of :: "statusCollectorMessage \<Rightarrow> Event option" where
  "event_of msg =
     (if MessageType msg = StatusTypeCacheHit then Some Ev_CacheHit
      else if MessageType msg = StatusTypeCacheMiss then Some Ev_CacheMiss
      else if MessageType msg = StatusTypeRequested then Some (Ev_Requested (StatusType msg))
      else if MessageType msg = StatusTypeAPIRequested
        then Some (Ev_APIRequested (StatusType msg))
      else if MessageType msg = StatusTypeErrored then Some (Ev_Errored (StatusType msg))
      else None)"

fun spec_family :: "Event \<Rightarrow> CounterVec" where
  "spec_family Ev_CacheHit = cacheCounter"
| "spec_family Ev_CacheMiss = cacheCounter"
| "spec_family (Ev_Requested c) = requestCounter"
| "spec_family (Ev_APIRequested c) = apiCounter"
| "spec_family (Ev_Errored k) = errorCounter"

fun spec_label :: "Event \<Rightarrow> string" where
  "spec_label Ev_CacheHit = ''hit''"
| "spec_label Ev_CacheMiss = ''miss''"
| "spec_label (Ev_Requested c) = c"
| "spec_label (Ev_APIRequested c) = c"
| "spec_label (Ev_Errored k) = k"

definition get_or_default_inc ::
  "(string \<rightharpoonup> go_uint) \<Rightarrow> string \<Rightarrow> (string \<rightharpoonup> go_uint)" where
  "get_or_default_inc m k = m(k \<mapsto> map_index m k + 1)"

fun spec_count :: "Event \<Rightarrow> info_t \<Rightarrow> info_t" where
  "spec_count Ev_CacheHit i = i\<lparr>CacheHits := CacheHits i + 1\<rparr>"
| "spec_count Ev_CacheMiss i = i\<lparr>CacheMisses := CacheMisses i + 1\<rparr>"
| "spec_count (Ev_Requested c) i = i\<lparr>Requested := get_or_default_inc (Requested i) c\<rparr>"
| "spec_count (Ev_APIRequested c) i =
     i\<lparr>APIRequested := get_or_default_inc (APIRequested i) c\<rparr>"
| "spec_count (Ev_Errored k) i = i\<lparr>Errored := get_or_default_inc (Errored i) k\<rparr>"

text \<open>The shape of the exported document in the spec's interface contract.\<close>

definition spec_contract :: "(string \<times> json_type) list" where
  "spec_contract =
     [(''ImgdMem'', T_uint64), (''Uptime'', T_int64), (''Errored'', T_counts),
      (''Requested'', T_counts), (''APIRequested'', T_counts), (''CacheHits'', T_uint),
      (''CacheMisses'', T_uint), (''CacheSize'', T_uint), (''CacheMem'', T_uint64)]"

fun conforms :: "json \<Rightarrow> (string \<times> json_type) list \<Rightarrow> bool" where
  "conforms (JObject fs) sig = list_all2 (\<lambda>(n, v) (n', t). n = n' \<and> has_type v t) fs sig"
| "conforms (JNumber _) sig = False"

section \<open>Properties\<close>

lemmas StatusType_defs =
  StatusTypeCacheHit_def StatusTypeCacheMiss_def StatusTypeRequested_def
  StatusTypeAPIRequested_def StatusTypeErrored_def

lemmas ingestion_defs =
  StatusCollector_Errored_def StatusCollector_Requested_def
  StatusCollector_APIRequested_def HitCache_def MissCache_def

subsection \<open>The check-then-increment\<close>

lemma bucket_inc_apply:
  "bucket_inc m k k' = (if k' = k then Some (map_index m k + 1) else m k')"
  by (simp add: bucket_inc_def map_index_def split: option.split)

lemma bucket_inc_get_or_default: "bucket_inc m k = get_or_default_inc m k"
  by (rule ext) (simp add: bucket_inc_apply get_or_default_inc_def)

lemma map_index_bucket_inc:
  "map_index (bucket_inc m k) k' = map_index m k' + (if k' = k then 1 else 0)"
  by (simp add: map_index_def bucket_inc_apply)

lemma dom_bucket_inc: "dom (bucket_inc m k) = insert k (dom m)"
  by (auto simp: bucket_inc_apply dom_def)

subsection \<open>What one handler call changes\<close>

lemma handleMessage_CacheHits:
  "CacheHits (info (fst (handleMessage s msg))) =
     CacheHits (info s) + (if MessageType msg = StatusTypeCacheHit then 1 else 0)"
  by (simp add: handleMessage_def StatusType_defs Let_def)

lemma handleMessage_CacheMisses:
  "CacheMisses (info (fst (handleMessage s msg))) =
     CacheMisses (info s) + (if MessageType msg = StatusTypeCacheMiss then 1 else 0)"
  by (simp add: handleMessage_def StatusType_defs Let_def)

lemma handleMessage_Errored:
  "Errored (info (fst (handleMessage s msg))) =
     (if MessageType msg = StatusTypeErrored then bucket_inc (Errored (info s)) (StatusType msg)
      else Errored (info s))"
  by (simp add: handleMessage_def StatusType_defs Let_def)

lemma handleMessage_Requested:
  "Requested (info (fst (handleMessage s msg))) =
     (if MessageType msg = StatusTypeRequested
      then bucket_inc (Requested (info s)) (StatusType msg) else Requested (info s))"
  by (simp add: handleMessage_def StatusType_defs Let_def)

lemma handleMessage_APIRequested:
  "APIRequested (info (fst (handleMessage s msg))) =
     (if MessageType msg = StatusTypeAPIRequested
      then bucket_inc (APIRequested (info s)) (StatusType msg) else APIRequested (info s))"
  by (simp add: handleMessage_def StatusType_defs Let_def)

lemma handleMessage_gauges:
  "ImgdMem (info (fst (handleMessage s msg))) = ImgdMem (info s)"
  "Uptime (info (fst (handleMessage s msg))) = Uptime (info s)"
  "CacheSize (info (fst (handleMessage s msg))) = CacheSize (info s)"
  "CacheMem (info (fst (handleMessage s msg))) = CacheMem (info s)"
  "StartedAt (fst (handleMessage s msg)) = StartedAt s"
  by (simp_all add: handleMessage_def Let_def)

lemma Collect_gauges_counters:
  "CacheHits (info (Collect_gauges s r)) = CacheHits (info s)"
  "CacheMisses (info (Collect_gauges s r)) = CacheMisses (info s)"
  "Errored (info (Collect_gauges s r)) = Errored (info s)"
  "Requested (info (Collect_gauges s r)) = Requested (info s)"
  "APIRequested (info (Collect_gauges s r)) = APIRequested (info s)"
  "StartedAt (Collect_gauges s r) = StartedAt s"
  by (simp_all add: Collect_gauges_def)

subsection \<open>What a run changes\<close>

lemma fst_run_Cons: "fst (run s (x # xs)) = fst (run (fst (loop_step s x)) xs)"
  by (simp split: prod.split)

lemma fst_run_append: "fst (run s (xs @ ys)) = fst (run (fst (run s xs)) ys)"
proof (induction xs arbitrary: s)
  case Nil
  show ?case by simp
next
  case (Cons x xs)
  show ?case
    by (simp only: append_Cons fst_run_Cons Cons.IH)
qed


lemma run_StartedAt: "StartedAt (fst (run s xs)) = StartedAt s"
proof (induction xs arbitrary: s)
  case Nil
  show ?case by simp
next
  case (Cons x xs)
  show ?case
    by (cases x)
       (simp_all only: fst_run_Cons Cons.IH loop_step.simps fst_conv
          Collect_gauges_counters handleMessage_gauges)
qed

lemma run_CacheHits:
  "CacheHits (info (fst (run s xs))) =
     CacheHits (info s) + of_nat (count_type StatusTypeCacheHit (messages xs))"
proof (induction xs arbitrary: s)
  case Nil
  show ?case by (simp add: count_type_def)
next
  case (Cons x xs)
  show ?case
  proof (cases x)
    case (Tick r)
    then show ?thesis
      by (simp only: fst_run_Cons Cons.IH loop_step.simps fst_conv
            Collect_gauges_counters messages.simps)
  next
    case (Message msg)
    then show ?thesis
      by (simp only: fst_run_Cons Cons.IH loop_step.simps handleMessage_CacheHits
            messages.simps)
         (simp add: count_type_def)
  qed
qed

lemma run_CacheMisses:
  "CacheMisses (info (fst (run s xs))) =
     CacheMisses (info s) + of_nat (count_type StatusTypeCacheMiss (messages xs))"
proof (induction xs arbitrary: s)
  case Nil
  show ?case by (simp add: count_type_def)
next
  case (Cons x xs)
  show ?case
  proof (cases x)
    case (Tick r)
    then show ?thesis
      by (simp only: fst_run_Cons Cons.IH loop_step.simps fst_conv
            Collect_gauges_counters messages.simps)
  next
    case (Message msg)
    then show ?thesis
      by (simp only: fst_run_Cons Cons.IH loop_step.simps handleMessage_CacheMisses
            messages.simps)
         (simp add: count_type_def)
  qed
qed

text \<open>
  The three maps share one argument: a step either leaves the map alone or applies
  \<open>bucket_inc\<close> at the message's string, when the message has the map's type.
\<close>

lemma run_bucket:
  fixes sel :: "StatusCollector \<Rightarrow> (string \<rightharpoonup> go_uint)"
  assumes tick: "\<And>s r. sel (Collect_gauges s r) = sel s"
    and msg: "\<And>s m. sel (fst (handleMessage s m)) =
                (if MessageType m = t then bucket_inc (sel s) (StatusType m) else sel s)"
  shows "sel (fst (run s xs)) k =
     (if count_kind t k (messages xs) = 0 then sel s k
      else Some (map_index (sel s) k + of_nat (count_kind t k (messages xs))))"
proof (induction xs arbitrary: s)
  case Nil
  show ?case by (simp add: count_kind_def)
next
  case (Cons x xs)
  show ?case
  proof (cases x)
    case (Tick r)
    then show ?thesis
      by (simp only: fst_run_Cons Cons.IH loop_step.simps fst_conv tick messages.simps)
  next
    case (Message m)
    then show ?thesis
      by (simp only: fst_run_Cons Cons.IH loop_step.simps msg messages.simps)
         (simp add: count_kind_def bucket_inc_apply map_index_bucket_inc)
  qed
qed

lemma run_Errored:
  "Errored (info (fst (run s xs))) k =
     (if count_kind StatusTypeErrored k (messages xs) = 0 then Errored (info s) k
      else Some (map_index (Errored (info s)) k
                 + of_nat (count_kind StatusTypeErrored k (messages xs))))"
  by (rule run_bucket [where sel = "\<lambda>s. Errored (info s)"])
     (simp_all only: Collect_gauges_counters handleMessage_Errored)

lemma run_Requested:
  "Requested (info (fst (run s xs))) k =
     (if count_kind StatusTypeRequested k (messages xs) = 0 then Requested (info s) k
      else Some (map_index (Requested (info s)) k
                 + of_nat (count_kind StatusTypeRequested k (messages xs))))"
  by (rule run_bucket [where sel = "\<lambda>s. Requested (info s)"])
     (simp_all only: Collect_gauges_counters handleMessage_Requested)


lemma map_index_run_Errored:
  "map_index (Errored (info (fst (run s xs)))) k =
     map_index (Errored (info s)) k + of_nat (count_kind StatusTypeErrored k (messages xs))"
  by (simp add: map_index_def run_Errored)

lemma messages_replicate: "messages (replicate n (Message m)) = replicate n m"
  by (induction n) simp_all

lemma count_kind_replicate:
  "count_kind t k (replicate n m) = (if MessageType m = t \<and> StatusType m = k then n else 0)"
  by (simp add: count_kind_def)


lemma MakeStatsCollector_fields:
  "CacheHits (info (MakeStatsCollector now)) = 0"
  "CacheMisses (info (MakeStatsCollector now)) = 0"
  "Errored (info (MakeStatsCollector now)) = Map.empty"
  "Requested (info (MakeStatsCollector now)) = Map.empty"
  "APIRequested (info (MakeStatsCollector now)) = Map.empty"
  "StartedAt (MakeStatsCollector now) = now"
  by (simp_all add: MakeStatsCollector_def)

text \<open>
  The maps of a reachable state have finitely many keys, as Go maps do, so
  \<open>marshal_map\<close> lists every key of such a map.
\<close>

lemma reachable_finite_maps:
  assumes "reachable s"
  shows "finite (dom (Errored (info s))) \<and> finite (dom (Requested (info s)))
       \<and> finite (dom (APIRequested (info s)))"
  using assms
proof (induction rule: reachable.induct)
  case (made now)
  show ?case by (simp add: MakeStatsCollector_fields)
next
  case (handled s msg)
  then show ?case
    by (simp add: handleMessage_Errored handleMessage_Requested handleMessage_APIRequested
          dom_bucket_inc)
next
  case (collected s r)
  then show ?case by (simp add: Collect_gauges_counters)
qed

subsection \<open>Counter completeness\<close>

lemma count_kind_count_list_Errored:
  "count_kind StatusTypeErrored k ms = count_list ms (StatusCollector_Errored k)"
proof (induction ms)
  case Nil
  show ?case by (simp add: count_kind_def)
next
  case (Cons m ms)
  have "(MessageType m = StatusTypeErrored \<and> StatusType m = k) = (m = StatusCollector_Errored k)"
    by (auto simp: StatusCollector_Errored_def)
  with Cons show ?case by (simp add: count_kind_def)
qed

lemma count_list_replicate: "count_list (replicate n x) x = n"
  by (induction n) simp_all

lemma map_index_empty: "map_index Map.empty k = 0"
  by (simp add: map_index_def)

text \<open>
  C1, as the code has it. From a freshly made collector, after the loop has taken any
  finite sequence of inputs in which the message of \<open>Errored(k)\<close> occurs N times (other
  messages and ticks may come in between), the counter \<open>Errored[k]\<close> holds N modulo
  \<open>2 ^ 64\<close>, the width of \<open>uint\<close>; so it holds exactly N whenever N is below
  \<open>2 ^ 64\<close>.
\<close>

theorem Errored_counts_calls:
  "unat (map_index (Errored (info (fst (run (MakeStatsCollector now) xs)))) k)
     = count_list (messages xs) (StatusCollector_Errored k) mod 2 ^ 64
   \<and> (count_list (messages xs) (StatusCollector_Errored k) < 2 ^ 64 \<longrightarrow>
        unat (map_index (Errored (info (fst (run (MakeStatsCollector now) xs)))) k)
          = count_list (messages xs) (StatusCollector_Errored k))"
proof -
  have "map_index (Errored (info (fst (run (MakeStatsCollector now) xs)))) k
          = of_nat (count_list (messages xs) (StatusCollector_Errored k))"
    by (simp only: map_index_run_Errored MakeStatsCollector_fields map_index_empty
          count_kind_count_list_Errored add_0)
  then have "unat (map_index (Errored (info (fst (run (MakeStatsCollector now) xs)))) k)
          = count_list (messages xs) (StatusCollector_Errored k) mod 2 ^ 64"
    by (simp add: unat_of_nat)
  then show ?thesis by simp
qed

theorem Errored_counts_calls_witness:
  "count_list (messages [Message (StatusCollector_Errored ''timeout''), Message HitCache,
       Message (StatusCollector_Errored ''timeout'')]) (StatusCollector_Errored ''timeout'')
     < 2 ^ 64
   \<and> unat (map_index (Errored (info (fst (run (MakeStatsCollector 0)
        [Message (StatusCollector_Errored ''timeout''), Message HitCache,
         Message (StatusCollector_Errored ''timeout'')])))) ''timeout'') = 2"
proof -
  have c: "count_list (messages [Message (StatusCollector_Errored ''timeout''), Message HitCache,
       Message (StatusCollector_Errored ''timeout'')]) (StatusCollector_Errored ''timeout'') = 2"
    by (simp add: ingestion_defs StatusType_defs)
  show ?thesis
    using Errored_counts_calls [of 0 "[Message (StatusCollector_Errored ''timeout''),
        Message HitCache, Message (StatusCollector_Errored ''timeout'')]" "''timeout''"]
    unfolding c by simp
qed

text \<open>
  C1 as stated, for every N, fails where the \<open>uint\<close> counter wraps: after
  \<open>2 ^ 64\<close> calls of \<open>Errored(''x'')\<close> the bucket holds 0. (Where \<open>uint\<close> is
  32 bits wide the bucket holds 0 then as well, \<open>2 ^ 64\<close> being a multiple of
  \<open>2 ^ 32\<close>.)
\<close>

theorem Errored_wraps_counterexample:
  "count_list (messages (replicate (2 ^ 64) (Message (StatusCollector_Errored ''x''))))
     (StatusCollector_Errored ''x'') = 2 ^ 64
   \<and> unat (map_index (Errored (info (fst (run (MakeStatsCollector 0)
        (replicate (2 ^ 64) (Message (StatusCollector_Errored ''x''))))))) ''x'') = 0"
proof -
  have "map_index (Errored (info (fst (run (MakeStatsCollector 0)
        (replicate (2 ^ 64) (Message (StatusCollector_Errored ''x''))))))) ''x''
        = of_nat (2 ^ 64)"
    by (simp only: map_index_run_Errored messages_replicate count_kind_replicate)
       (simp add: StatusCollector_Errored_def MakeStatsCollector_fields map_index_empty)
  moreover have "(of_nat (2 ^ 64) :: 64 word) = 0"
    by simp
  ultimately show ?thesis
    by (simp add: messages_replicate count_list_replicate)
qed

subsection \<open>Messages of no defined type\<close>

text \<open>
  C10. A message whose \<open>MessageType\<close> is none of the five constants matches no case of
  the switch: \<open>handleMessage\<close> returns the state as it was and pushes no increment.
\<close>

theorem handleMessage_unknown_type:
  assumes "MessageType msg \<notin> {StatusTypeCacheHit, StatusTypeCacheMiss, StatusTypeRequested,
             StatusTypeAPIRequested, StatusTypeErrored}"
  shows "handleMessage s msg = (s, [])"
  using assms by (simp add: handleMessage_def)

theorem handleMessage_unknown_type_witness:
  "MessageType \<lparr>MessageType = 5, StatusType = ''skin''\<rparr>
     \<notin> {StatusTypeCacheHit, StatusTypeCacheMiss, StatusTypeRequested,
        StatusTypeAPIRequested, StatusTypeErrored}
   \<and> handleMessage (MakeStatsCollector 0) \<lparr>MessageType = 5, StatusType = ''skin''\<rparr>
       = (MakeStatsCollector 0, [])"
proof -
  have h: "MessageType \<lparr>MessageType = 5, StatusType = ''skin''\<rparr>
     \<notin> {StatusTypeCacheHit, StatusTypeCacheMiss, StatusTypeRequested,
        StatusTypeAPIRequested, StatusTypeErrored}"
    by (simp add: StatusType_defs)
  show ?thesis
    using h handleMessage_unknown_type [OF h, of "MakeStatsCollector 0"] by simp
qed

subsection \<open>One event, one increment, one bucket\<close>

lemma event_of_cases:
  assumes "event_of msg = Some e"
  obtains "MessageType msg = StatusTypeCacheHit" "e = Ev_CacheHit"
  | "MessageType msg = StatusTypeCacheMiss" "e = Ev_CacheMiss"
  | "MessageType msg = StatusTypeRequested" "e = Ev_Requested (StatusType msg)"
  | "MessageType msg = StatusTypeAPIRequested" "e = Ev_APIRequested (StatusType msg)"
  | "MessageType msg = StatusTypeErrored" "e = Ev_Errored (StatusType msg)"
  using assms by (auto simp: event_of_def split: if_splits)

lemma event_of_ingestion:
  "event_of HitCache = Some Ev_CacheHit"
  "event_of MissCache = Some Ev_CacheMiss"
  "event_of (StatusCollector_Requested c) = Some (Ev_Requested c)"
  "event_of (StatusCollector_APIRequested c) = Some (Ev_APIRequested c)"
  "event_of (StatusCollector_Errored c) = Some (Ev_Errored c)"
  by (simp_all add: event_of_def ingestion_defs StatusType_defs)

lemma event_of_None:
  "event_of msg = None \<longleftrightarrow>
     MessageType msg \<notin> {StatusTypeCacheHit, StatusTypeCacheMiss, StatusTypeRequested,
        StatusTypeAPIRequested, StatusTypeErrored}"
  by (simp add: event_of_def)

lemma handleMessage_refines:
  assumes "event_of msg = Some e"
  shows "handleMessage s msg =
           (s\<lparr>info := spec_count e (info s)\<rparr>, [(spec_family e, spec_label e)])"
  using assms
  by (rule event_of_cases)
     (simp_all add: handleMessage_def StatusType_defs Let_def bucket_inc_get_or_default)

lemma get_or_default_inc_apply:
  "get_or_default_inc m k k' =
     (if k' = k then Some (case m k of None \<Rightarrow> 1 | Some v \<Rightarrow> v + 1) else m k')"
  by (simp add: get_or_default_inc_def map_index_def split: option.split)

text \<open>
  C3. A message of one of the five types stands for one event of the spec
  (\<open>event_of\<close>; each ingestion method sends the message of its event). Handling it
  pushes exactly one increment, on the counter vector of the event's type and with the
  label \<open>hit\<close>, \<open>miss\<close> or the message's string, and changes the state by the spec's
  get-or-default-then-increment of the event's bucket and nothing else. That operation
  stores 1 under an absent key, the old value plus one under a present key, and leaves
  the other keys alone.
\<close>

theorem handleMessage_event:
  "(event_of msg = Some e \<longrightarrow>
      handleMessage s msg =
        (s\<lparr>info := spec_count e (info s)\<rparr>, [(spec_family e, spec_label e)]))
   \<and> get_or_default_inc m k k' =
        (if k' = k then Some (case m k of None \<Rightarrow> 1 | Some v \<Rightarrow> v + 1) else m k')
   \<and> event_of HitCache = Some Ev_CacheHit
   \<and> event_of MissCache = Some Ev_CacheMiss
   \<and> event_of (StatusCollector_Requested c) = Some (Ev_Requested c)
   \<and> event_of (StatusCollector_APIRequested c) = Some (Ev_APIRequested c)
   \<and> event_of (StatusCollector_Errored c) = Some (Ev_Errored c)"
proof -
  have "event_of msg = Some e \<longrightarrow>
      handleMessage s msg =
        (s\<lparr>info := spec_count e (info s)\<rparr>, [(spec_family e, spec_label e)])"
    by (rule impI) (rule handleMessage_refines)
  then show ?thesis
    by (simp only: get_or_default_inc_apply event_of_ingestion simp_thms)
qed

theorem handleMessage_event_witness:
  "event_of (StatusCollector_Errored ''timeout'') = Some (Ev_Errored ''timeout'')
   \<and> snd (handleMessage (MakeStatsCollector 0) (StatusCollector_Errored ''timeout''))
       = [(errorCounter, ''timeout'')]
   \<and> Errored (info (fst (handleMessage (MakeStatsCollector 0)
        (StatusCollector_Errored ''timeout'')))) ''timeout'' = Some 1"
proof -
  have h: "event_of (StatusCollector_Errored ''timeout'') = Some (Ev_Errored ''timeout'')"
    by (simp add: event_of_def StatusCollector_Errored_def StatusType_defs)
  have "handleMessage (MakeStatsCollector 0) (StatusCollector_Errored ''timeout'') =
          ((MakeStatsCollector 0)\<lparr>info := spec_count (Ev_Errored ''timeout'')
              (info (MakeStatsCollector 0))\<rparr>,
           [(spec_family (Ev_Errored ''timeout''), spec_label (Ev_Errored ''timeout''))])"
    using handleMessage_event [of "StatusCollector_Errored ''timeout''" "Ev_Errored ''timeout''"
        "MakeStatsCollector 0"] h
    by blast
  then show ?thesis
    using h by (simp add: MakeStatsCollector_def get_or_default_inc_def map_index_def)
qed

subsection \<open>Scenario A\<close>

lemma count_type_mset:
  "count_type t ms = size (filter_mset (\<lambda>m. MessageType m = t) (mset ms))"
  by (simp add: count_type_def flip: mset_filter)

lemma count_kind_mset:
  "count_kind t k ms = size (filter_mset (\<lambda>m. MessageType m = t \<and> StatusType m = k) (mset ms))"
  by (simp add: count_kind_def flip: mset_filter)

lemma marshal_map_single: "marshal_map [k \<mapsto> v] = JObject [(k, JNumber (uint v))]"
  by (simp add: marshal_map_def map_index_def)

lemma json_member_ToJSON:
  "json_member (ToJSON json_Marshal s) ''CacheHits'' = Some (JNumber (uint (CacheHits (info s))))"
  "json_member (ToJSON json_Marshal s) ''CacheMisses''
     = Some (JNumber (uint (CacheMisses (info s))))"
  "json_member (ToJSON json_Marshal s) ''Requested'' = Some (marshal_map (Requested (info s)))"
  by (simp_all add: ToJSON_def json_Marshal_def)

text \<open>
  C2. From a freshly made collector, let the loop take any finite sequence of inputs
  whose messages are, in some order, three of \<open>HitCache\<close>, one of \<open>MissCache\<close> and two
  of \<open>Requested(''skin'')\<close> (ticks may come in between). The document that \<open>ToJSON\<close>
  then returns has \<open>CacheHits\<close> 3, \<open>CacheMisses\<close> 1 and \<open>Requested\<close> the object with
  the one member \<open>skin\<close>, 2.
\<close>

theorem scenario_A:
  assumes "mset (messages xs) =
     mset [HitCache, HitCache, HitCache, MissCache,
           StatusCollector_Requested ''skin'', StatusCollector_Requested ''skin'']"
  shows "json_member (ToJSON json_Marshal (fst (run (MakeStatsCollector now) xs)))
           ''CacheHits'' = Some (JNumber 3)
       \<and> json_member (ToJSON json_Marshal (fst (run (MakeStatsCollector now) xs)))
           ''CacheMisses'' = Some (JNumber 1)
       \<and> json_member (ToJSON json_Marshal (fst (run (MakeStatsCollector now) xs)))
           ''Requested'' = Some (JObject [(''skin'', JNumber 2)])"
proof -
  let ?s = "fst (run (MakeStatsCollector now) xs)"
  have hits: "count_type StatusTypeCacheHit (messages xs) = 3"
    by (simp add: count_type_mset assms ingestion_defs StatusType_defs)
  have misses: "count_type StatusTypeCacheMiss (messages xs) = 1"
    by (simp add: count_type_mset assms ingestion_defs StatusType_defs)
  have reqs: "count_kind StatusTypeRequested k (messages xs) = (if k = ''skin'' then 2 else 0)"
    for k
    by (simp add: count_kind_mset assms ingestion_defs StatusType_defs)
  have "CacheHits (info ?s) = 3"
    by (simp add: run_CacheHits hits MakeStatsCollector_fields)
  moreover have "CacheMisses (info ?s) = 1"
    by (simp add: run_CacheMisses misses MakeStatsCollector_fields)
  moreover have "Requested (info ?s) = [''skin'' \<mapsto> 2]"
    by (rule ext) (simp add: run_Requested reqs MakeStatsCollector_fields map_index_def)
  ultimately show ?thesis
    by (simp add: json_member_ToJSON marshal_map_single)
qed

theorem scenario_A_witness:
  "mset (messages [Message HitCache, Message (StatusCollector_Requested ''skin''),
       Message MissCache, Message HitCache, Message (StatusCollector_Requested ''skin''),
       Message HitCache]) =
     mset [HitCache, HitCache, HitCache, MissCache,
           StatusCollector_Requested ''skin'', StatusCollector_Requested ''skin'']
   \<and> json_member (ToJSON json_Marshal (fst (run (MakeStatsCollector 0)
        [Message HitCache, Message (StatusCollector_Requested ''skin''),
         Message MissCache, Message HitCache, Message (StatusCollector_Requested ''skin''),
         Message HitCache]))) ''Requested'' = Some (JObject [(''skin'', JNumber 2)])"
proof -
  have h: "mset (messages [Message HitCache, Message (StatusCollector_Requested ''skin''),
       Message MissCache, Message HitCache, Message (StatusCollector_Requested ''skin''),
       Message HitCache]) =
     mset [HitCache, HitCache, HitCache, MissCache,
           StatusCollector_Requested ''skin'', StatusCollector_Requested ''skin'']"
    by simp
  show ?thesis
    using h scenario_A [OF h, of 0] by simp
qed

subsection \<open>The gauges\<close>

lemma Collect_gauges_gauges:
  "ImgdMem (info (Collect_gauges s r)) = Alloc r"
  "Uptime (info (Collect_gauges s r)) = Now_Unix r - StartedAt s"
  "CacheSize (info (Collect_gauges s r)) = cache_size r"
  "CacheMem (info (Collect_gauges s r)) = cache_memory r"
  by (simp_all add: Collect_gauges_def)

lemma Collect_gauges_forgets:
  "Collect_gauges (s\<lparr>info := (info s)\<lparr>ImgdMem := a, Uptime := b, CacheSize := c,
      CacheMem := d\<rparr>\<rparr>) r = Collect_gauges s r"
  by (simp add: Collect_gauges_def)

lemma sint_diff_in_range:
  fixes a b :: int64
  assumes "- (2 ^ 63) \<le> sint a - sint b" and "sint a - sint b < 2 ^ 63"
  shows "sint (a - b) = sint a - sint b"
  using assms by (simp add: sint_word_ariths signed_take_bit_int_eq_self)

lemma run_snoc_Tick:
  "fst (run s (xs @ [Tick r])) = Collect_gauges (fst (run s xs)) r"
  by (simp add: fst_run_append)

text \<open>
  C4. A tick makes the loop call \<open>Collect\<close> and push nothing. \<open>Collect\<close> sets
  \<open>ImgdMem\<close> to the allocation read from the runtime, \<open>Uptime\<close> to the clock's reading
  minus \<open>StartedAt\<close>, and \<open>CacheSize\<close> and \<open>CacheMem\<close> to what the cache reports;
  nothing of the four old values survives, and the counters and \<open>StartedAt\<close> stay as
  they are. So when a collector made at time \<open>t0\<close> has taken any inputs and then a tick
  at a time T seconds later (T within the range of \<open>int64\<close>), its \<open>Uptime\<close> is T.
\<close>

theorem Collect_overwrites_gauges:
  "loop_step s (Tick r) = (Collect_gauges s r, [])
   \<and> ImgdMem (info (Collect_gauges s r)) = Alloc r
   \<and> Uptime (info (Collect_gauges s r)) = Now_Unix r - StartedAt s
   \<and> CacheSize (info (Collect_gauges s r)) = cache_size r
   \<and> CacheMem (info (Collect_gauges s r)) = cache_memory r
   \<and> Collect_gauges (s\<lparr>info := (info s)\<lparr>ImgdMem := a, Uptime := b, CacheSize := c,
        CacheMem := d\<rparr>\<rparr>) r = Collect_gauges s r
   \<and> CacheHits (info (Collect_gauges s r)) = CacheHits (info s)
   \<and> CacheMisses (info (Collect_gauges s r)) = CacheMisses (info s)
   \<and> Errored (info (Collect_gauges s r)) = Errored (info s)
   \<and> Requested (info (Collect_gauges s r)) = Requested (info s)
   \<and> APIRequested (info (Collect_gauges s r)) = APIRequested (info s)
   \<and> StartedAt (Collect_gauges s r) = StartedAt s
   \<and> (- (2 ^ 63) \<le> T \<and> T < 2 ^ 63 \<and> sint (Now_Unix r) = sint t0 + T \<longrightarrow>
        sint (Uptime (info (fst (run (MakeStatsCollector t0) (xs @ [Tick r]))))) = T)"
proof -
  have "sint (Uptime (info (fst (run (MakeStatsCollector t0) (xs @ [Tick r]))))) = T"
    if "- (2 ^ 63) \<le> T" "T < 2 ^ 63" "sint (Now_Unix r) = sint t0 + T"
  proof -
    have "Uptime (info (fst (run (MakeStatsCollector t0) (xs @ [Tick r])))) = Now_Unix r - t0"
      by (simp only: run_snoc_Tick Collect_gauges_gauges run_StartedAt MakeStatsCollector_fields)
    moreover have "sint (Now_Unix r - t0) = sint (Now_Unix r) - sint t0"
      using that by (intro sint_diff_in_range) simp_all
    ultimately show ?thesis
      using that by simp
  qed
  then have "- (2 ^ 63) \<le> T \<and> T < 2 ^ 63 \<and> sint (Now_Unix r) = sint t0 + T \<longrightarrow>
        sint (Uptime (info (fst (run (MakeStatsCollector t0) (xs @ [Tick r]))))) = T"
    by blast
  then show ?thesis
    by (simp only: loop_step.simps Collect_gauges_gauges Collect_gauges_forgets
          Collect_gauges_counters simp_thms)
qed

theorem Collect_overwrites_gauges_witness:
  "- (2 ^ 63) \<le> (10::int) \<and> (10::int) < 2 ^ 63
   \<and> sint (Now_Unix \<lparr>Alloc = 4096, Now_Unix = 1700000010, cache_size = 7,
        cache_memory = 512\<rparr>) = sint (1700000000 :: int64) + 10
   \<and> sint (Uptime (info (fst (run (MakeStatsCollector 1700000000)
        ([Message HitCache] @ [Tick \<lparr>Alloc = 4096, Now_Unix = 1700000010, cache_size = 7,
        cache_memory = 512\<rparr>]))))) = 10"
proof -
  have h: "- (2 ^ 63) \<le> (10::int) \<and> (10::int) < 2 ^ 63
   \<and> sint (Now_Unix \<lparr>Alloc = 4096, Now_Unix = 1700000010, cache_size = 7,
        cache_memory = 512\<rparr>) = sint (1700000000 :: int64) + 10"
    by simp
  show ?thesis
    using h Collect_overwrites_gauges [of _
        "\<lparr>Alloc = 4096, Now_Unix = 1700000010, cache_size = 7, cache_memory = 512\<rparr>"
        _ _ _ _ 10 1700000000 "[Message HitCache]"]
    by blast
qed

subsection \<open>Monotonicity of the counters\<close>










subsection \<open>The exported document\<close>

lemma uint_bound_64: "uint (w :: 64 word) < 18446744073709551616"
  using uint_lt2p [of w] by simp

lemma sint_bounds_64:
  "- 9223372036854775808 \<le> sint (w :: 64 word)" "sint (w :: 64 word) < 9223372036854775808"
  using sint_ge [of w] sint_lt [of w] by simp_all

lemma has_type_marshal_map: "has_type (marshal_map m) T_counts"
  by (simp add: marshal_map_def list_all_iff uint_bound_64)

lemma ToJSON_json_Marshal: "ToJSON json_Marshal s = fst (json_Marshal (info s))"
  by (simp add: ToJSON_def split: prod.split)

text \<open>
  C8. In every state of the collector the document that \<open>ToJSON\<close> returns is an
  object with exactly the members \<open>ImgdMem\<close>, \<open>Uptime\<close>, \<open>Errored\<close>,
  \<open>Requested\<close>, \<open>APIRequested\<close>, \<open>CacheHits\<close>, \<open>CacheMisses\<close>, \<open>CacheSize\<close>
  and \<open>CacheMem\<close>, each of the type the interface contract gives it: numbers within
  the ranges of \<open>uint64\<close>, \<open>int64\<close> and \<open>uint\<close>, and objects from strings to
  \<open>uint\<close> numbers.
\<close>

theorem ToJSON_field_names:
  "member_names (ToJSON json_Marshal s) =
     [''ImgdMem'', ''Uptime'', ''Errored'', ''Requested'', ''APIRequested'', ''CacheHits'',
      ''CacheMisses'', ''CacheSize'', ''CacheMem'']
   \<and> conforms (ToJSON json_Marshal s) spec_contract"
  by (simp add: ToJSON_json_Marshal json_Marshal_def spec_contract_def uint_bound_64
        sint_bounds_64 has_type_marshal_map)

theorem ToJSON_field_names_witness:
  "conforms (ToJSON json_Marshal (fst (run (MakeStatsCollector 0)
      [Message (StatusCollector_Errored ''timeout''), Message HitCache]))) spec_contract
   \<and> json_member (ToJSON json_Marshal (fst (run (MakeStatsCollector 0)
      [Message (StatusCollector_Errored ''timeout''), Message HitCache]))) ''Errored''
     = Some (JObject [(''timeout'', JNumber 1)])"
proof -
  have "Errored (info (fst (run (MakeStatsCollector 0)
      [Message (StatusCollector_Errored ''timeout''), Message HitCache]))) = [''timeout'' \<mapsto> 1]"
    by (simp add: handleMessage_def ingestion_defs StatusType_defs MakeStatsCollector_def
          bucket_inc_def Let_def)
  then have "json_member (ToJSON json_Marshal (fst (run (MakeStatsCollector 0)
      [Message (StatusCollector_Errored ''timeout''), Message HitCache]))) ''Errored''
     = Some (JObject [(''timeout'', JNumber 1)])"
    by (simp add: ToJSON_json_Marshal json_Marshal_def marshal_map_single)
  then show ?thesis
    using ToJSON_field_names [of "fst (run (MakeStatsCollector 0)
      [Message (StatusCollector_Errored ''timeout''), Message HitCache])"]
    by blast
qed

end
